theory Spec2Isabelle
  imports Main "HOL-Library.AList"
begin

section \<open>JavaScript values\<close>

text \<open>
  The configuration fields of \<^verbatim>\<open>lib/titlebar.js\<close> are documented as optional booleans and
  optional strings. The values the model lets a field hold are \<^verbatim>\<open>undefined\<close> (the field is
  absent), \<^verbatim>\<open>null\<close>, a boolean and a string. Numbers and objects are left out.
\<close>

datatype jsval = JUndefined | JNull | JBool bool | JString string

text \<open>ToBoolean, as applied by \<^verbatim>\<open>if (x)\<close> and \<^verbatim>\<open>!x\<close>.\<close>

fun truthy :: "jsval \<Rightarrow> bool" where
  "truthy JUndefined = False"
| "truthy JNull = False"
| "truthy (JBool b) = b"
| "truthy (JString s) = (s \<noteq> [])"

text \<open>ToString, as applied by \<^verbatim>\<open>"url(" + icon + ")"\<close> and by a style property setter.\<close>

fun ToString :: "jsval \<Rightarrow> string" where
  "ToString JUndefined = ''undefined''"
| "ToString JNull = ''null''"
| "ToString (JBool b) = (if b then ''true'' else ''false'')"
| "ToString (JString s) = s"

text \<open>The \<^verbatim>\<open>innerText\<close> setter turns \<^verbatim>\<open>null\<close> into the empty string, any other value by ToString.\<close>

fun innerText_string :: "jsval \<Rightarrow> string" where
  "innerText_string JNull = []"
| "innerText_string v = ToString v"

datatype error = TypeError | ReferenceError | NotFoundError

section \<open>The view: an element tree\<close>

text \<open>
  \<^verbatim>\<open>domify(titlebarView, document)\<close> yields an element with descendants. An element has a tag
  name, a class list, the style declarations assigned to it, a text and child elements.
  The style holds the string a setter was given; whether the browser accepts that string
  as a value of the property is not part of the model.
\<close>

datatype node = Element
  (tagName: string)
  (classList: "string list")
  (style: "(string \<times> string) list")
  (innerText: string)
  (childNodes: "node list")

fun set_classList :: "string list \<Rightarrow> node \<Rightarrow> node" where
  "set_classList cl (Element t _ st tx ch) = Element t cl st tx ch"

fun set_childNodes :: "node list \<Rightarrow> node \<Rightarrow> node" where
  "set_childNodes ch (Element t cl st tx _) = Element t cl st tx ch"

text \<open>\<^verbatim>\<open>el.style[prop] = value\<close>\<close>

fun set_style :: "string \<Rightarrow> string \<Rightarrow> node \<Rightarrow> node" where
  "set_style prop v (Element t cl st tx ch) = Element t cl (AList.update prop v st) tx ch"

text \<open>\<^verbatim>\<open>el.innerText = text\<close>: the text replaces whatever the element contained.\<close>

fun set_innerText :: "string \<Rightarrow> node \<Rightarrow> node" where
  "set_innerText tx (Element t cl st _ _) = Element t cl st tx []"

text \<open>\<^verbatim>\<open>classList.add\<close> and \<^verbatim>\<open>classList.remove\<close> on a token list, which holds a token once.\<close>

definition classList_add :: "string \<Rightarrow> string list \<Rightarrow> string list" where
  "classList_add c cl = (if c \<in> set cl then cl else cl @ [c])"

definition classList_remove :: "string \<Rightarrow> string list \<Rightarrow> string list" where
  "classList_remove c cl = removeAll c cl"

text \<open>
  The selectors the source uses are a class selector (\<^verbatim>\<open>.titlebar-title\<close>) and a type
  selector (\<^verbatim>\<open>rect\<close>).
\<close>

fun matches :: "string \<Rightarrow> node \<Rightarrow> bool" where
  "matches [] n = False"
| "matches (c # cs) n = (if c = CHR ''.'' then cs \<in> set (classList n) else tagName n = c # cs)"

text \<open>The first element of a forest, in document order, that matches the selector.\<close>

function first_match :: "string \<Rightarrow> node list \<Rightarrow> node option" where
  "first_match sel [] = None"
| "first_match sel (n # ns) =
     (if matches sel n then Some n
      else case first_match sel (childNodes n) of
             Some m \<Rightarrow> Some m
           | None \<Rightarrow> first_match sel ns)"
  by pat_completeness auto
termination
proof (relation "measure (\<lambda>(sel, ns). size_list size ns)")
  show "wf (measure (\<lambda>(sel, ns). size_list size ns))" by simp
next
  fix sel :: string and n :: node and ns :: "node list"
  show "((sel, childNodes n), (sel, n # ns)) \<in> measure (\<lambda>(sel, ns). size_list size ns)"
    by (cases n) simp
next
  fix sel :: string and n :: node and ns :: "node list"
  show "((sel, ns), (sel, n # ns)) \<in> measure (\<lambda>(sel, ns). size_list size ns)"
    by simp
qed

text \<open>\<^verbatim>\<open>el.querySelector(sel)\<close> searches the descendants of \<^verbatim>\<open>el\<close>; \<^verbatim>\<open>None\<close> is \<^verbatim>\<open>null\<close>.\<close>

definition querySelector :: "string \<Rightarrow> node \<Rightarrow> node option" where
  "querySelector sel el = first_match sel (childNodes el)"

text \<open>
  The forest after the element that \<^const>\<open>first_match\<close> finds has been changed by \<open>f\<close>;
  \<^verbatim>\<open>None\<close> when there is no such element.
\<close>

function assign_first :: "string \<Rightarrow> (node \<Rightarrow> node) \<Rightarrow> node list \<Rightarrow> node list option" where
  "assign_first sel f [] = None"
| "assign_first sel f (n # ns) =
     (if matches sel n then Some (f n # ns)
      else case assign_first sel f (childNodes n) of
             Some ch \<Rightarrow> Some (set_childNodes ch n # ns)
           | None \<Rightarrow> map_option ((#) n) (assign_first sel f ns))"
  by pat_completeness auto
termination
proof (relation "measure (\<lambda>(sel, f, ns). size_list size ns)")
  show "wf (measure (\<lambda>(sel, f, ns). size_list size ns))" by simp
next
  fix sel :: string and f :: "node \<Rightarrow> node" and n :: node and ns :: "node list"
  show "((sel, f, childNodes n), (sel, f, n # ns)) \<in> measure (\<lambda>(sel, f, ns). size_list size ns)"
    by (cases n) simp
next
  fix sel :: string and f :: "node \<Rightarrow> node" and n :: node and ns :: "node list"
  show "((sel, f, ns), (sel, f, n # ns)) \<in> measure (\<lambda>(sel, f, ns). size_list size ns)"
    by simp
qed

text \<open>
  \<^verbatim>\<open>el.querySelector(sel).prop = v\<close>: the tree of \<^verbatim>\<open>el\<close> after the assignment \<open>f\<close> to the
  element found; \<^verbatim>\<open>None\<close> when \<^verbatim>\<open>querySelector\<close> returns \<^verbatim>\<open>null\<close>, where the source throws a
  TypeError.
\<close>

definition querySelector_assign :: "string \<Rightarrow> (node \<Rightarrow> node) \<Rightarrow> node \<Rightarrow> node option" where
  "querySelector_assign sel f el =
     map_option (\<lambda>ch. set_childNodes ch el) (assign_first sel f (childNodes el))"

section \<open>The widget and its environment\<close>

text \<open>
  \<^verbatim>\<open>this.options\<close>. The constructor copies seven fields of its argument; \<^verbatim>\<open>maximized\<close> is read
  and written by \<^verbatim>\<open>resize\<close> only. The argument of the constructor has the same type: a field
  of it that the constructor does not copy is ignored.
\<close>

record options =
  icon :: jsval
  title :: jsval
  color :: jsval
  backgroundColor :: jsval
  darkMode :: jsval
  draggable :: jsval
  fullscreen :: jsval
  maximized :: jsval

text \<open>
  A \<^verbatim>\<open>TitleBar\<close> instance. \<open>element_id\<close> is the identity of the root element, by which a
  parent's child list refers to it. \<open>listeners\<close> are the registrations made by \<^verbatim>\<open>init\<close>
  (target, event type, method), \<open>emitted\<close> the events passed to \<^verbatim>\<open>emit\<close>, oldest first.
  What a subscriber does when it is called is the host's code and not modelled. The
  three button fields hold the element that the lookup returned; the methods below only
  test them for \<^verbatim>\<open>null\<close>.
\<close>

record titlebar =
  options :: options
  titlebarElement :: node
  element_id :: nat
  minimizeButton :: "node option"
  resizeButton :: "node option"
  closeButton :: "node option"
  listeners :: "(string \<times> string \<times> string) list"
  emitted :: "string list"

text \<open>
  Where \<^verbatim>\<open>appendTo\<close> can mount the widget: the document body or another element of the host
  page, outside every title bar.
\<close>

datatype container = Body | Host nat

text \<open>
  What the free identifier \<^verbatim>\<open>parent\<close> of \<^verbatim>\<open>destroy\<close> resolves to. The module declares no such
  variable, so it is a property of the global object: in a browser window that is
  \<^verbatim>\<open>window.parent\<close>, a window and not a DOM node (\<open>NotANode\<close>), unless the host has
  replaced it by an element; without a global of that name the identifier is undeclared.
\<close>

datatype global_binding = Undeclared | NotANode | NodeRef container

text \<open>
  The environment of the module: its two assets (read once when the module is loaded,
  never written; \<open>titlebarView\<close> is the template as \<^verbatim>\<open>domify\<close> parses it, a single root element),
  the class list of \<^verbatim>\<open>document.body\<close> (the document has a body), the style sheets injected
  by name, the child lists of the containers, the global \<^verbatim>\<open>parent\<close> and the next unused
  element identity.
\<close>

record env =
  titlebarStylesheet :: string
  titlebarView :: node
  body_classList :: "string list"
  stylesheets :: "(string \<times> string) list"
  children :: "container \<Rightarrow> nat list"
  parent :: global_binding
  next_id :: nat

section \<open>Statements that may throw\<close>

text \<open>
  A statement maps a state to the state it leaves and the exception it threw, if any:
  what a method wrote before it throws stays written.
\<close>

type_synonym 's action = "'s \<Rightarrow> error option \<times> 's"

definition does :: "('s \<Rightarrow> 's) \<Rightarrow> 's action" where
  "does f s = (None, f s)"

definition if_then :: "('s \<Rightarrow> bool) \<Rightarrow> 's action \<Rightarrow> 's action" where
  "if_then c a s = (if c s then a s else (None, s))"

fun sequence :: "'s action list \<Rightarrow> 's action" where
  "sequence [] s = (None, s)"
| "sequence (a # as) s =
     (case a s of
        (None, s') \<Rightarrow> sequence as s'
      | (Some err, s') \<Rightarrow> (Some err, s'))"

text \<open>A statement keeps an observation \<open>g\<close> of the state, whether it throws or not.\<close>

definition keeps :: "('s \<Rightarrow> 'b) \<Rightarrow> 's action \<Rightarrow> bool" where
  "keeps g a = (\<forall>s. g (snd (a s)) = g s)"

text \<open>A statement runs the same way on a state changed by \<open>G\<close>, and leaves it changed by \<open>G\<close>.\<close>

definition commutes :: "('s \<Rightarrow> 's) \<Rightarrow> 's action \<Rightarrow> bool" where
  "commutes G a = (\<forall>s. a (G s) = apsnd G (a s))"

text \<open>\<^verbatim>\<open>this.titlebarElement.querySelector(sel).prop = v\<close>\<close>

definition assign_selected :: "string \<Rightarrow> (node \<Rightarrow> node) \<Rightarrow> titlebar action" where
  "assign_selected sel f this =
     (case querySelector_assign sel f (titlebarElement this) of
        None \<Rightarrow> (Some TypeError, this)
      | Some el \<Rightarrow> (None, this\<lparr>titlebarElement := el\<rparr>))"

text \<open>\<^verbatim>\<open>button.addEventListener(type, handler)\<close> on a looked-up button, \<^verbatim>\<open>null\<close> when absent.\<close>

definition addEventListener :: "node option \<Rightarrow> string \<Rightarrow> string \<Rightarrow> string \<Rightarrow> titlebar action" where
  "addEventListener target name type method this =
     (case target of
        None \<Rightarrow> (Some TypeError, this)
      | Some _ \<Rightarrow> (None, this\<lparr>listeners := listeners this @ [(name, type, method)]\<rparr>))"

section \<open>The methods of TitleBar\<close>

text \<open>
  The method \<^verbatim>\<open>onDoubleclick(event)\<close> is left out: no listener is bound to it, and it needs
  the target of a DOM event.
\<close>

definition emit :: "string \<Rightarrow> titlebar \<Rightarrow> titlebar" where
  "emit event this = this\<lparr>emitted := emitted this @ [event]\<rparr>"

definition close :: "titlebar \<Rightarrow> titlebar" where
  "close this = emit ''close'' this"

definition minimize :: "titlebar \<Rightarrow> titlebar" where
  "minimize this = emit ''minimize'' this"

definition maximize :: "titlebar \<Rightarrow> titlebar" where
  "maximize this =
     emit ''maximize''
       (this\<lparr>titlebarElement :=
          set_classList (classList_add ''maximized'' (classList (titlebarElement this)))
            (titlebarElement this)\<rparr>)"

definition restore :: "titlebar \<Rightarrow> titlebar" where
  "restore this =
     emit ''restore''
       (this\<lparr>titlebarElement :=
          set_classList (classList_remove ''maximized'' (classList (titlebarElement this)))
            (titlebarElement this)\<rparr>)"

text \<open>The two tests of \<^verbatim>\<open>resize\<close> run one after the other, then the flag is negated.\<close>

definition resize :: "titlebar \<Rightarrow> titlebar" where
  "resize this =
     (let this1 = (if truthy (maximized (options this)) then restore this else this);
          this2 = (if \<not> truthy (maximized (options this1)) then maximize this1 else this1)
      in this2\<lparr>options := (options this2)\<lparr>maximized :=
           JBool (\<not> truthy (maximized (options this2)))\<rparr>\<rparr>)"

definition setIcon :: "jsval \<Rightarrow> titlebar action" where
  "setIcon icon_arg =
     assign_selected ''.titlebar-icon''
       (set_style ''backgroundImage'' (''url('' @ ToString icon_arg @ '')''))"

definition setTitle :: "jsval \<Rightarrow> titlebar action" where
  "setTitle title_arg =
     assign_selected ''.titlebar-title'' (set_innerText (innerText_string title_arg))"

definition init :: "titlebar action" where
  "init =
     sequence
       [if_then (\<lambda>this. truthy (draggable (options this)))
          (does (\<lambda>this. this\<lparr>titlebarElement :=
             set_classList (classList_add ''draggable'' (classList (titlebarElement this)))
               (titlebarElement this)\<rparr>)),
        if_then (\<lambda>this. truthy (icon (options this)))
          (\<lambda>this. setIcon (icon (options this)) this),
        if_then (\<lambda>this. truthy (title (options this)))
          (\<lambda>this. setTitle (title (options this)) this),
        does (\<lambda>this. this\<lparr>listeners :=
          listeners this @ [(''titlebarElement'', ''dblclick'', ''resize'')]\<rparr>),
        (\<lambda>this. addEventListener (minimizeButton this) ''minimizeButton'' ''click'' ''minimize'' this),
        (\<lambda>this. addEventListener (resizeButton this) ''resizeButton'' ''click'' ''resize'' this),
        (\<lambda>this. addEventListener (closeButton this) ''closeButton'' ''click'' ''close'' this)]"

text \<open>
  \<^verbatim>\<open>new TitleBar(options)\<close>. An exception thrown by \<^verbatim>\<open>init\<close> leaves the caller without an
  instance.
\<close>

definition constructor :: "options \<Rightarrow> env \<Rightarrow> error + (titlebar \<times> env)" where
  "constructor opts e =
     (let el = titlebarView e;
          this = \<lparr>options = \<lparr>icon = icon opts, title = title opts, color = color opts,
                    backgroundColor = backgroundColor opts, darkMode = darkMode opts,
                    draggable = draggable opts, fullscreen = fullscreen opts,
                    maximized = JUndefined\<rparr>,
                  titlebarElement = el,
                  element_id = next_id e,
                  minimizeButton = querySelector ''.titlebar-minimize'' el,
                  resizeButton = querySelector ''.titlebar-resize'' el,
                  closeButton = querySelector ''.titlebar-close'' el,
                  listeners = [],
                  emitted = []\<rparr>
      in case init this of
           (Some err, _) \<Rightarrow> Inl err
         | (None, this') \<Rightarrow> Inr (this', e\<lparr>next_id := Suc (next_id e)\<rparr>))"

text \<open>
  Modelled from the spec: the style injector \<^verbatim>\<open>defaultcss\<close>, a dependency whose code is not
  among the sources. The spec has it apply a style sheet once per logical name: a second
  injection under a name already present changes nothing.
\<close>

definition defaultCss :: "string \<Rightarrow> string \<Rightarrow> env \<Rightarrow> env" where
  "defaultCss name css e =
     (if name \<in> fst ` set (stylesheets e) then e
      else e\<lparr>stylesheets := stylesheets e @ [(name, css)]\<rparr>)"

text \<open>
  \<^verbatim>\<open>context.appendChild(node)\<close>: the node leaves the parent it had and becomes the last child
  of \<^verbatim>\<open>context\<close>.
\<close>

definition appendChild :: "container \<Rightarrow> nat \<Rightarrow> env \<Rightarrow> env" where
  "appendChild context r e =
     e\<lparr>children := (\<lambda>c. if c = context then removeAll r (children e c) @ [r]
                         else removeAll r (children e c))\<rparr>"

text \<open>
  \<^verbatim>\<open>p.removeChild(node)\<close> on an element \<^verbatim>\<open>p\<close>: a NotFoundError when the node is not a child
  of \<^verbatim>\<open>p\<close>.
\<close>

definition removeChild :: "container \<Rightarrow> nat \<Rightarrow> env \<Rightarrow> error option \<times> env" where
  "removeChild p r e =
     (if r \<in> set (children e p)
      then (None, e\<lparr>children := (children e)(p := removeAll r (children e p))\<rparr>)
      else (Some NotFoundError, e))"

definition on_this :: "titlebar action \<Rightarrow> (titlebar \<times> env) action" where
  "on_this a = (\<lambda>(this, e). case a this of (r, this') \<Rightarrow> (r, (this', e)))"

definition on_env :: "(env \<Rightarrow> env) \<Rightarrow> (titlebar \<times> env) action" where
  "on_env f = (\<lambda>(this, e). (None, (this, f e)))"

text \<open>
  The statements of \<^verbatim>\<open>appendTo\<close>, in the order of the source: the three option blocks,
  the injection of the style sheet and the mounting.
\<close>

definition option_darkMode :: "(titlebar \<times> env) action" where
  "option_darkMode =
     if_then (\<lambda>(this, e). darkMode (options this) \<noteq> JBool False)
       (on_env (\<lambda>e. e\<lparr>body_classList := classList_add ''titlebar-light'' (body_classList e)\<rparr>))"

definition option_color :: "(titlebar \<times> env) action" where
  "option_color =
     if_then (\<lambda>(this, e). truthy (color (options this)))
       (sequence
          [(\<lambda>(this, e). on_this (assign_selected ''.titlebar-title''
              (set_style ''color'' (ToString (color (options this))))) (this, e)),
           (\<lambda>(this, e). on_this (assign_selected ''rect''
              (set_style ''fill'' (ToString (color (options this))))) (this, e)),
           (\<lambda>(this, e). on_this (assign_selected ''path''
              (set_style ''fill'' (ToString (color (options this))))) (this, e)),
           (\<lambda>(this, e). on_this (assign_selected ''polygon''
              (set_style ''fill'' (ToString (color (options this))))) (this, e))])"

definition option_backgroundColor :: "(titlebar \<times> env) action" where
  "option_backgroundColor =
     if_then (\<lambda>(this, e). truthy (backgroundColor (options this)))
       (on_this (does (\<lambda>this. this\<lparr>titlebarElement :=
          set_style ''backgroundColor'' (ToString (backgroundColor (options this)))
            (titlebarElement this)\<rparr>)))"

definition inject_stylesheet :: "(titlebar \<times> env) action" where
  "inject_stylesheet =
     (\<lambda>(this, e). on_env (defaultCss ''titlebar'' (titlebarStylesheet e)) (this, e))"

definition append_element :: "container \<Rightarrow> (titlebar \<times> env) action" where
  "append_element context =
     (\<lambda>(this, e). on_env (appendChild context (element_id this)) (this, e))"

text \<open>\<^verbatim>\<open>appendTo(context = document.body)\<close>; \<open>None\<close> is a call without argument.\<close>

definition appendTo :: "container option \<Rightarrow> (titlebar \<times> env) action" where
  "appendTo arg =
     (let context = (case arg of None \<Rightarrow> Body | Some c \<Rightarrow> c) in
      sequence
        [option_darkMode, option_color, option_backgroundColor, inject_stylesheet,
         append_element context])"

text \<open>\<^verbatim>\<open>destroy()\<close>: \<^verbatim>\<open>parent.removeChild(this.titlebarElement)\<close>, with \<^verbatim>\<open>parent\<close> the global.\<close>

definition destroy :: "(titlebar \<times> env) action" where
  "destroy = (\<lambda>(this, e).
     case parent e of
       Undeclared \<Rightarrow> (Some ReferenceError, (this, e))
     | NotANode \<Rightarrow> (Some TypeError, (this, e))
     | NodeRef p \<Rightarrow> (case removeChild p (element_id this) e of (r, e') \<Rightarrow> (r, (this, e'))))"

section \<open>Sequences of calls\<close>

datatype operation =
  Minimize | Maximize | Restore | Resize | Close
| AppendTo "container option" | Destroy | SetIcon jsval | SetTitle jsval

fun call :: "operation \<Rightarrow> (titlebar \<times> env) action" where
  "call Minimize = on_this (does minimize)"
| "call Maximize = on_this (does maximize)"
| "call Restore = on_this (does restore)"
| "call Resize = on_this (does resize)"
| "call Close = on_this (does close)"
| "call (AppendTo arg) = appendTo arg"
| "call Destroy = destroy"
| "call (SetIcon v) = on_this (setIcon v)"
| "call (SetTitle v) = on_this (setTitle v)"

text \<open>
  A host that calls one method after the other and catches what a call throws: the
  exceptions of the calls, in order, and the state after the last call.
\<close>

fun run :: "operation list \<Rightarrow> titlebar \<times> env \<Rightarrow> error option list \<times> (titlebar \<times> env)" where
  "run [] s = ([], s)"
| "run (x # xs) s =
     (case call x s of (r, s') \<Rightarrow> (case run xs s' of (rs, s'') \<Rightarrow> (r # rs, s'')))"

text \<open>\<^verbatim>\<open>new TitleBar(options)\<close> followed by a sequence of calls on the instance.\<close>

definition session ::
  "options \<Rightarrow> env \<Rightarrow> operation list \<Rightarrow> error + (error option list \<times> (titlebar \<times> env))" where
  "session opts e ops =
     (case constructor opts e of
        Inl err \<Rightarrow> Inl err
      | Inr s \<Rightarrow> Inr (run ops s))"

section \<open>What the claims observe\<close>

definition maximized_flag :: "titlebar \<Rightarrow> jsval" where
  "maximized_flag this = maximized (options this)"

definition has_marker :: "titlebar \<Rightarrow> bool" where
  "has_marker this = (''maximized'' \<in> set (classList (titlebarElement this)))"

text \<open>The text of the title region and the image of the icon region of a view.\<close>

definition title_text :: "node \<Rightarrow> string option" where
  "title_text el = map_option innerText (querySelector ''.titlebar-title'' el)"


definition count_stylesheets :: "string \<Rightarrow> env \<Rightarrow> nat" where
  "count_stylesheets name e = length (filter (\<lambda>sheet. fst sheet = name) (stylesheets e))"

text \<open>The \<^verbatim>\<open>resize\<close> method called \<open>k\<close> times in a row.\<close>

fun resize_times :: "nat \<Rightarrow> titlebar \<Rightarrow> titlebar" where
  "resize_times 0 this = this"
| "resize_times (Suc k) this = resize (resize_times k this)"

text \<open>The event a series of \<^verbatim>\<open>resize\<close> calls emits at its call number \<open>k\<close>, counted from 1.\<close>

definition nth_resize_event :: "nat \<Rightarrow> string" where
  "nth_resize_event k = (if odd k then ''maximize'' else ''restore'')"

text \<open>
  An instance with another value stored as its \<^verbatim>\<open>fullscreen\<close> option; with \<^verbatim>\<open>undefined\<close>
  stored there, what is left of a session is everything but that option.
\<close>

definition with_fullscreen :: "jsval \<Rightarrow> titlebar \<Rightarrow> titlebar" where
  "with_fullscreen v this = this\<lparr>options := (options this)\<lparr>fullscreen := v\<rparr>\<rparr>"

definition observable ::
  "error + (error option list \<times> (titlebar \<times> env)) \<Rightarrow>
   error + (error option list \<times> (titlebar \<times> env))" where
  "observable = map_sum id (apsnd (apfst (with_fullscreen JUndefined)))"



section \<open>A concrete page\<close>

text \<open>
  A template with the parts the source looks up: the icon and title regions, the three
  buttons and their glyphs. The page has an empty body, no style sheet and the global
  \<^verbatim>\<open>parent\<close> of a top-level window.
\<close>

definition sample_view :: node where
  "sample_view =
     Element ''div'' [''titlebar''] [] []
       [Element ''div'' [''titlebar-icon''] [] [] [],
        Element ''div'' [''titlebar-title''] [] ''Untitled'' [],
        Element ''div'' [''titlebar-minimize''] [] []
          [Element ''svg'' [] [] [] [Element ''rect'' [] [] [] []]],
        Element ''div'' [''titlebar-resize''] [] []
          [Element ''svg'' [] [] [] [Element ''path'' [] [] [] []]],
        Element ''div'' [''titlebar-close''] [] []
          [Element ''svg'' [] [] [] [Element ''polygon'' [] [] [] []]]]"

definition sample_env :: env where
  "sample_env =
     \<lparr>titlebarStylesheet = ''.titlebar { height: 32px }'', titlebarView = sample_view,
      body_classList = [], stylesheets = [], children = (\<lambda>c. []), parent = NotANode,
      next_id = 0\<rparr>"

text \<open>The argument \<^verbatim>\<open>{}\<close>: every field absent.\<close>

definition no_options :: options where
  "no_options =
     \<lparr>icon = JUndefined, title = JUndefined, color = JUndefined, backgroundColor = JUndefined,
      darkMode = JUndefined, draggable = JUndefined, fullscreen = JUndefined,
      maximized = JUndefined\<rparr>"

section \<open>Properties\<close>

lemma classList_set_childNodes [simp]: "classList (set_childNodes ch n) = classList n"
  by (cases n) simp
lemma tagName_set_childNodes [simp]: "tagName (set_childNodes ch n) = tagName n"
  by (cases n) simp
lemma childNodes_set_childNodes [simp]: "childNodes (set_childNodes ch n) = ch"
  by (cases n) simp
lemma style_set_childNodes [simp]: "style (set_childNodes ch n) = style n"
  by (cases n) simp
lemma innerText_set_childNodes [simp]: "innerText (set_childNodes ch n) = innerText n"
  by (cases n) simp
lemma set_childNodes_same [simp]: "set_childNodes (childNodes n) n = n"
  by (cases n) simp

lemma classList_set_classList [simp]: "classList (set_classList cl n) = cl"
  by (cases n) simp
lemma childNodes_set_classList [simp]: "childNodes (set_classList cl n) = childNodes n"
  by (cases n) simp

lemma childNodes_set_style [simp]: "childNodes (set_style p v n) = childNodes n"
  by (cases n) simp
lemma classList_set_style [simp]: "classList (set_style p v n) = classList n"
  by (cases n) simp
lemma tagName_set_style [simp]: "tagName (set_style p v n) = tagName n"
  by (cases n) simp
lemma innerText_set_style [simp]: "innerText (set_style p v n) = innerText n"
  by (cases n) simp
lemma style_set_style [simp]: "map_of (style (set_style p v n)) p = Some v"
  by (cases n) (simp add: update_conv')

lemma classList_set_innerText [simp]: "classList (set_innerText tx n) = classList n"
  by (cases n) simp
lemma tagName_set_innerText [simp]: "tagName (set_innerText tx n) = tagName n"
  by (cases n) simp
lemma innerText_set_innerText [simp]: "innerText (set_innerText tx n) = tx"
  by (cases n) simp

lemma matches_cong: "classList m = classList n \<Longrightarrow> tagName m = tagName n \<Longrightarrow> matches sel m = matches sel n"
  by (cases sel) simp_all

lemma matches_set_childNodes [simp]: "matches sel (set_childNodes ch n) = matches sel n"
  by (rule matches_cong) simp_all
lemma matches_set_style [simp]: "matches sel (set_style p v n) = matches sel n"
  by (rule matches_cong) simp_all
lemma matches_set_innerText [simp]: "matches sel (set_innerText tx n) = matches sel n"
  by (rule matches_cong) simp_all

lemma assign_first_None: "(assign_first sel f ns = None) = (first_match sel ns = None)"
  by (induction sel ns rule: first_match.induct) (auto split: option.splits)

lemma first_match_assign_first:
  "\<forall>n. matches sel (f n) = matches sel n \<Longrightarrow> assign_first sel f ns = Some ns' \<Longrightarrow>
   first_match sel ns' = map_option f (first_match sel ns)"
proof (induction sel ns arbitrary: ns' rule: first_match.induct)
  case (1 sel)
  then show ?case by simp
next
  case (2 sel n ns)
  note keeps = "2.prems"(1)
  note assigned = "2.prems"(2)
  show ?case
  proof (cases "matches sel n")
    case True
    with assigned have "ns' = f n # ns" by simp
    with True keeps show ?thesis by simp
  next
    case False
    note nomatch = this
    show ?thesis
    proof (cases "assign_first sel f (childNodes n)")
      case (Some ch)
      with nomatch assigned have ns': "ns' = set_childNodes ch n # ns" by simp
      have "first_match sel (childNodes n) \<noteq> None"
        using Some assign_first_None [of sel f "childNodes n"] by simp
      then obtain m where m: "first_match sel (childNodes n) = Some m" by blast
      from "2.IH"(1) [OF nomatch keeps Some] m have "first_match sel ch = Some (f m)" by simp
      with ns' nomatch m show ?thesis by simp
    next
      case None
      then have none: "first_match sel (childNodes n) = None"
        using assign_first_None [of sel f "childNodes n"] by simp
      from None nomatch assigned obtain ms
        where ms: "assign_first sel f ns = Some ms" and ns': "ns' = n # ms"
        by auto
      from "2.IH"(2) [OF nomatch none keeps ms] ns' nomatch none show ?thesis by simp
    qed
  qed
qed

lemma querySelector_assign_None:
  "(querySelector_assign sel f el = None) = (querySelector sel el = None)"
  by (simp add: querySelector_assign_def querySelector_def assign_first_None)

lemma querySelector_after_assign:
  "\<forall>n. matches sel (f n) = matches sel n \<Longrightarrow> querySelector_assign sel f el = Some el' \<Longrightarrow>
   querySelector sel el' = map_option f (querySelector sel el)"
  by (auto simp: querySelector_assign_def querySelector_def dest: first_match_assign_first)

subsection \<open>Statements\<close>

lemma sequence_Cons_ok:
  "sequence (a # as) s = (None, s'') \<Longrightarrow> \<exists>s'. a s = (None, s') \<and> sequence as s' = (None, s'')"
  by (auto split: prod.splits option.splits)

lemma sequence_keeps:
  "\<forall>a\<in>set as. \<forall>s. g (snd (a s)) = g s \<Longrightarrow> g (snd (sequence as s)) = g s"
proof (induction as arbitrary: s)
  case Nil
  then show ?case by simp
next
  case (Cons a as)
  have step: "g (snd (a s)) = g s" using Cons.prems by simp
  have rest: "\<And>s'. g (snd (sequence as s')) = g s'" using Cons.IH Cons.prems by simp
  show ?case
  proof (cases "a s")
    case (Pair r s')
    with step have "g s' = g s" by simp
    with Pair rest [of s'] show ?thesis by (cases r) simp_all
  qed
qed

lemma assign_selected_options [simp]: "options (snd (assign_selected sel f this)) = options this"
  by (simp add: assign_selected_def split: option.splits)
lemma assign_selected_emitted [simp]: "emitted (snd (assign_selected sel f this)) = emitted this"
  by (simp add: assign_selected_def split: option.splits)
lemma assign_selected_element_id [simp]: "element_id (snd (assign_selected sel f this)) = element_id this"
  by (simp add: assign_selected_def split: option.splits)
lemma assign_selected_classList [simp]:
  "classList (titlebarElement (snd (assign_selected sel f this))) = classList (titlebarElement this)"
  by (auto simp: assign_selected_def querySelector_assign_def split: option.splits)

lemma addEventListener_keeps [simp]:
  "options (snd (addEventListener tg nm ty m this)) = options this"
  "emitted (snd (addEventListener tg nm ty m this)) = emitted this"
  "titlebarElement (snd (addEventListener tg nm ty m this)) = titlebarElement this"
  "element_id (snd (addEventListener tg nm ty m this)) = element_id this"
  by (simp_all add: addEventListener_def split: option.splits)

lemma init_options [simp]: "options (snd (init this)) = options this"
  unfolding init_def
  by (rule sequence_keeps) (simp add: if_then_def does_def setIcon_def setTitle_def)

lemma init_emitted [simp]: "emitted (snd (init this)) = emitted this"
  unfolding init_def
  by (rule sequence_keeps) (simp add: if_then_def does_def setIcon_def setTitle_def)

lemma init_element_id [simp]: "element_id (snd (init this)) = element_id this"
  unfolding init_def
  by (rule sequence_keeps) (simp add: if_then_def does_def setIcon_def setTitle_def)

lemma init_marker [simp]:
  "(''maximized'' \<in> set (classList (titlebarElement (snd (init this))))) =
   (''maximized'' \<in> set (classList (titlebarElement this)))"
  unfolding init_def
  by (rule sequence_keeps [where g = "\<lambda>t. ''maximized'' \<in> set (classList (titlebarElement t))"])
     (simp add: if_then_def does_def setIcon_def setTitle_def classList_add_def)

lemma constructor_Inr:
  assumes "constructor opts e = Inr (this, e')"
  shows "options this = (opts\<lparr>maximized := JUndefined\<rparr>)"
    and "emitted this = []"
    and "element_id this = next_id e"
    and "e' = e\<lparr>next_id := Suc (next_id e)\<rparr>"
    and "has_marker this = (''maximized'' \<in> set (classList (titlebarView e)))"
proof -
  let ?new = "\<lparr>options = \<lparr>icon = icon opts, title = title opts, color = color opts,
                    backgroundColor = backgroundColor opts, darkMode = darkMode opts,
                    draggable = draggable opts, fullscreen = fullscreen opts,
                    maximized = JUndefined\<rparr>,
                  titlebarElement = titlebarView e,
                  element_id = next_id e,
                  minimizeButton = querySelector ''.titlebar-minimize'' (titlebarView e),
                  resizeButton = querySelector ''.titlebar-resize'' (titlebarView e),
                  closeButton = querySelector ''.titlebar-close'' (titlebarView e),
                  listeners = [],
                  emitted = []\<rparr>"
  from assms have i: "init ?new = (None, this)" and e': "e' = e\<lparr>next_id := Suc (next_id e)\<rparr>"
    by (auto simp: constructor_def Let_def split: prod.splits option.splits)
  then have t: "this = snd (init ?new)" by simp
  show "options this = (opts\<lparr>maximized := JUndefined\<rparr>)" unfolding t by simp
  show "emitted this = []" unfolding t by simp
  show "element_id this = next_id e" unfolding t by simp
  show "e' = e\<lparr>next_id := Suc (next_id e)\<rparr>" by (rule e')
  show "has_marker this = (''maximized'' \<in> set (classList (titlebarView e)))"
    unfolding t has_marker_def by simp
qed

lemma keepsD: "keeps g a \<Longrightarrow> g (snd (a s)) = g s"
  by (simp add: keeps_def)

lemma keeps_sequence_Nil: "keeps g (sequence [])"
  by (simp add: keeps_def)

lemma keeps_sequence_Cons: "keeps g a \<Longrightarrow> keeps g (sequence as) \<Longrightarrow> keeps g (sequence (a # as))"
  by (auto simp: keeps_def split: prod.splits option.splits) (metis snd_conv)+

lemma keeps_if_then: "keeps g a \<Longrightarrow> keeps g (if_then c a)"
  by (simp add: keeps_def if_then_def)

lemma appendTo_options: "keeps (\<lambda>s. options (fst s)) (appendTo arg)"
  unfolding appendTo_def Let_def option_darkMode_def option_color_def
    option_backgroundColor_def inject_stylesheet_def append_element_def
  by (intro keeps_sequence_Cons keeps_sequence_Nil keeps_if_then)
     (simp_all add: keeps_def on_env_def on_this_def does_def split_def)

lemma appendTo_classList: "keeps (\<lambda>s. classList (titlebarElement (fst s))) (appendTo arg)"
  unfolding appendTo_def Let_def option_darkMode_def option_color_def
    option_backgroundColor_def inject_stylesheet_def append_element_def
  by (intro keeps_sequence_Cons keeps_sequence_Nil keeps_if_then)
     (simp_all add: keeps_def on_env_def on_this_def does_def split_def)

subsection \<open>The event methods\<close>

lemma resize_emitted:
  "emitted (resize this) =
   emitted this @ [if truthy (maximized (options this)) then ''restore'' else ''maximize'']"
  by (simp add: resize_def restore_def maximize_def emit_def Let_def)

lemma resize_flag: "maximized (options (resize this)) = JBool (\<not> truthy (maximized (options this)))"
  by (simp add: resize_def restore_def maximize_def emit_def Let_def)

lemma resize_marker:
  "(''maximized'' \<in> set (classList (titlebarElement (resize this)))) =
   (\<not> truthy (maximized (options this)))"
  by (simp add: resize_def restore_def maximize_def emit_def Let_def classList_add_def
      classList_remove_def)

lemma resize_times_flag:
  "truthy (maximized (options (resize_times N this))) =
   (if even N then truthy (maximized (options this)) else \<not> truthy (maximized (options this)))"
  by (induction N) (simp_all add: resize_flag)

lemma resize_times_emitted:
  "\<not> truthy (maximized (options this)) \<Longrightarrow>
   emitted (resize_times N this) = emitted this @ map nth_resize_event [1..<Suc N]"
proof (induction N)
  case 0
  then show ?case by simp
next
  case (Suc N)
  have "emitted (resize_times (Suc N) this) =
        emitted (resize_times N this) @ [nth_resize_event (Suc N)]"
    using Suc.prems by (simp add: resize_emitted resize_times_flag nth_resize_event_def)
  with Suc show ?case by simp
qed

text \<open>
  Claim C1. On a freshly constructed widget, after \<open>N\<close> calls of \<^verbatim>\<open>resize()\<close> and no other
  call, the maximized flag is truthy if and only if \<open>N mod 2 = 1\<close>; the events emitted
  are, in order, \<^verbatim>\<open>maximize\<close>, \<^verbatim>\<open>restore\<close>, \<^verbatim>\<open>maximize\<close>, ..., one for each call, and call
  number \<open>N + 1\<close> adds exactly one event to those of the first \<open>N\<close> calls.
\<close>
theorem resize_alternates:
  "constructor opts e = Inr (this, e') \<Longrightarrow>
   truthy (maximized_flag (resize_times N this)) = (N mod 2 = 1) \<and>
   emitted (resize_times N this) = map nth_resize_event [1..<Suc N] \<and>
   emitted (resize_times (Suc N) this) =
     emitted (resize_times N this) @ [if even N then ''maximize'' else ''restore'']"
proof -
  assume c: "constructor opts e = Inr (this, e')"
  have flag: "\<not> truthy (maximized (options this))" and log: "emitted this = []"
    using constructor_Inr(1,2) [OF c] by simp_all
  have "truthy (maximized_flag (resize_times N this)) = (N mod 2 = 1)"
    using flag by (simp add: maximized_flag_def resize_times_flag odd_iff_mod_2_eq_one)
  moreover have "emitted (resize_times N this) = map nth_resize_event [1..<Suc N]"
    using resize_times_emitted [OF flag, of N] log by simp
  moreover have "emitted (resize_times (Suc N) this) =
     emitted (resize_times N this) @ [if even N then ''maximize'' else ''restore'']"
    using flag by (simp add: resize_emitted resize_times_flag)
  ultimately show ?thesis by simp
qed

theorem resize_alternates_witness:
  "\<not> isl (constructor no_options sample_env) \<and>
   truthy (maximized_flag (resize_times 3 (fst (projr (constructor no_options sample_env))))) \<and>
   emitted (resize_times 3 (fst (projr (constructor no_options sample_env)))) =
     [''maximize'', ''restore'', ''maximize'']"
proof -
  have c: "\<not> isl (constructor no_options sample_env)" by code_simp
  then have "constructor no_options sample_env =
      Inr (fst (projr (constructor no_options sample_env)),
           snd (projr (constructor no_options sample_env)))"
    by (cases "constructor no_options sample_env") simp_all
  from resize_alternates [OF this, of 3] c show ?thesis
    by (simp add: nth_resize_event_def upt_rec)
qed

text \<open>
  Claim C3. In every state, \<^verbatim>\<open>maximize()\<close> leaves the root node with the marker class
  \<^verbatim>\<open>maximized\<close> and emits \<^verbatim>\<open>maximize\<close>, \<^verbatim>\<open>restore()\<close> leaves it without the marker and emits
  \<^verbatim>\<open>restore\<close>, and neither changes the maximized flag. Of all calls only \<^verbatim>\<open>resize()\<close> changes
  the flag, to the negation of its truth value.
\<close>
theorem maximize_restore_frame:
  "has_marker (maximize this) \<and>
   emitted (maximize this) = emitted this @ [''maximize''] \<and>
   maximized_flag (maximize this) = maximized_flag this \<and>
   \<not> has_marker (restore this) \<and>
   emitted (restore this) = emitted this @ [''restore''] \<and>
   maximized_flag (restore this) = maximized_flag this \<and>
   maximized_flag (fst (snd (call x (this, e)))) =
     (if x = Resize then JBool (\<not> truthy (maximized_flag this)) else maximized_flag this)"
proof -
  have "maximized_flag (fst (snd (call x (this, e)))) =
     (if x = Resize then JBool (\<not> truthy (maximized_flag this)) else maximized_flag this)"
  proof (cases x)
    case (AppendTo arg)
    have "options (fst (snd (appendTo arg (this, e)))) = options this"
      using keepsD [OF appendTo_options, of arg "(this, e)"] by simp
    with AppendTo show ?thesis by (simp add: maximized_flag_def)
  next
    case Destroy
    then show ?thesis
      by (simp add: maximized_flag_def destroy_def removeChild_def split: global_binding.splits)
  next
    case (SetIcon v)
    then show ?thesis
      by (simp add: maximized_flag_def on_this_def setIcon_def split: prod.splits)
         (metis assign_selected_options snd_conv)
  next
    case (SetTitle v)
    then show ?thesis
      by (simp add: maximized_flag_def on_this_def setTitle_def split: prod.splits)
         (metis assign_selected_options snd_conv)
  qed (simp_all add: maximized_flag_def on_this_def does_def minimize_def maximize_def
        restore_def close_def emit_def resize_flag)
  then show ?thesis
    by (simp add: has_marker_def maximized_flag_def maximize_def restore_def emit_def
        classList_add_def classList_remove_def)
qed

text \<open>
  Claim C7. \<^verbatim>\<open>minimize()\<close> and \<^verbatim>\<open>close()\<close> are notifications: a call throws nothing, adds
  the one event \<^verbatim>\<open>minimize\<close> (or \<^verbatim>\<open>close\<close>) to the emitted events and changes nothing else
  of the widget or of the environment; in particular the maximized flag and the view
  are as before.
\<close>
theorem minimize_close_notify:
  "call Minimize (this, e) = (None, (this\<lparr>emitted := emitted this @ [''minimize'']\<rparr>, e)) \<and>
   call Close (this, e) = (None, (this\<lparr>emitted := emitted this @ [''close'']\<rparr>, e)) \<and>
   maximized_flag (minimize this) = maximized_flag this \<and>
   titlebarElement (minimize this) = titlebarElement this \<and>
   maximized_flag (close this) = maximized_flag this \<and>
   titlebarElement (close this) = titlebarElement this"
  by (simp add: on_this_def does_def minimize_def close_def emit_def maximized_flag_def)

subsection \<open>Calls and the flag\<close>

lemma call_options: "x \<noteq> Resize \<Longrightarrow> options (fst (snd (call x s))) = options (fst s)"
proof (cases s)
  case (Pair this e)
  assume "x \<noteq> Resize"
  then have "options (fst (snd (call x (this, e)))) = options this"
  proof (cases x)
    case (AppendTo arg)
    then show ?thesis using keepsD [OF appendTo_options, of arg "(this, e)"] by simp
  next
    case Destroy
    then show ?thesis
      by (simp add: destroy_def removeChild_def split: global_binding.splits)
  qed (simp_all add: on_this_def does_def minimize_def maximize_def restore_def close_def
        emit_def setIcon_def setTitle_def split_def)
  with Pair show ?thesis by simp
qed

lemma call_classList:
  "x \<noteq> Resize \<Longrightarrow> x \<noteq> Maximize \<Longrightarrow> x \<noteq> Restore \<Longrightarrow>
   classList (titlebarElement (fst (snd (call x s)))) = classList (titlebarElement (fst s))"
proof (cases s)
  case (Pair this e)
  assume "x \<noteq> Resize" "x \<noteq> Maximize" "x \<noteq> Restore"
  then have "classList (titlebarElement (fst (snd (call x (this, e))))) =
             classList (titlebarElement this)"
  proof (cases x)
    case (AppendTo arg)
    then show ?thesis using keepsD [OF appendTo_classList, of arg "(this, e)"] by simp
  next
    case Destroy
    then show ?thesis
      by (simp add: destroy_def removeChild_def split: global_binding.splits)
  qed (simp_all add: on_this_def does_def minimize_def close_def
        emit_def setIcon_def setTitle_def split_def)
  with Pair show ?thesis by simp
qed

lemma call_Resize_synchronises:
  "has_marker (fst (snd (call Resize s))) = truthy (maximized_flag (fst (snd (call Resize s))))"
  "(maximized_flag (fst (snd (call Resize s))) = JBool True) =
   truthy (maximized_flag (fst (snd (call Resize s))))"
  by (cases s; simp add: on_this_def does_def has_marker_def maximized_flag_def resize_flag
      resize_marker)+

lemma run_synchronised:
  "Maximize \<notin> set ops \<Longrightarrow> Restore \<notin> set ops \<Longrightarrow>
   has_marker (fst s) = truthy (maximized_flag (fst s)) \<Longrightarrow>
   (maximized_flag (fst s) = JBool True) = truthy (maximized_flag (fst s)) \<Longrightarrow>
   has_marker (fst (snd (run ops s))) = truthy (maximized_flag (fst (snd (run ops s)))) \<and>
   (maximized_flag (fst (snd (run ops s))) = JBool True) =
     truthy (maximized_flag (fst (snd (run ops s))))"
proof (induction ops arbitrary: s)
  case Nil
  then show ?case by simp
next
  case (Cons x xs)
  let ?s' = "snd (call x s)"
  have step: "has_marker (fst ?s') = truthy (maximized_flag (fst ?s')) \<and>
    (maximized_flag (fst ?s') = JBool True) = truthy (maximized_flag (fst ?s'))"
  proof (cases "x = Resize")
    case True
    then show ?thesis using call_Resize_synchronises [of s] by simp
  next
    case False
    with Cons.prems have "options (fst ?s') = options (fst s)"
      and "classList (titlebarElement (fst ?s')) = classList (titlebarElement (fst s))"
      by (auto intro: call_options call_classList)
    with Cons.prems(3,4) show ?thesis by (simp add: has_marker_def maximized_flag_def)
  qed
  have "run (x # xs) s = (fst (call x s) # fst (run xs ?s'), snd (run xs ?s'))"
    by (simp add: split_def)
  moreover have "Maximize \<notin> set xs" "Restore \<notin> set xs" using Cons.prems by simp_all
  ultimately show ?case using Cons.IH [of ?s'] step by simp
qed

text \<open>
  Claim C2 has the flag true exactly when the root node carries the marker, in every
  state reachable by the public methods. A direct \<^verbatim>\<open>maximize()\<close> breaks it: on a new widget
  it sets the marker and leaves the flag \<^verbatim>\<open>undefined\<close>.
\<close>
theorem maximize_desynchronises:
  "\<not> isl (session no_options sample_env [Maximize]) \<and>
   has_marker (fst (snd (projr (session no_options sample_env [Maximize])))) \<and>
   maximized_flag (fst (snd (projr (session no_options sample_env [Maximize])))) = JUndefined"
  by code_simp

text \<open>
  Claim C2, amended. When the root of the template does not carry the marker, then in
  every state reached from construction by calls of \<^verbatim>\<open>minimize\<close>, \<^verbatim>\<open>resize\<close>, \<^verbatim>\<open>close\<close>,
  \<^verbatim>\<open>appendTo\<close>, \<^verbatim>\<open>destroy\<close>, \<^verbatim>\<open>setIcon\<close> and \<^verbatim>\<open>setTitle\<close>, whether or not a call throws, the flag
  is \<^verbatim>\<open>true\<close> (and truthy) if and only if the root node carries the marker.
\<close>
theorem flag_matches_marker:
  "session opts e ops = Inr (rs, this, e') \<Longrightarrow>
   ''maximized'' \<notin> set (classList (titlebarView e)) \<Longrightarrow>
   Maximize \<notin> set ops \<Longrightarrow> Restore \<notin> set ops \<Longrightarrow>
   (maximized_flag this = JBool True) = has_marker this \<and>
   truthy (maximized_flag this) = has_marker this"
proof -
  assume s: "session opts e ops = Inr (rs, this, e')"
    and view: "''maximized'' \<notin> set (classList (titlebarView e))"
    and ops: "Maximize \<notin> set ops" "Restore \<notin> set ops"
  from s obtain this0 e0 where c: "constructor opts e = Inr (this0, e0)"
    and r: "run ops (this0, e0) = (rs, this, e')"
    by (auto simp: session_def split: sum.splits)
  have "\<not> has_marker this0" using constructor_Inr(5) [OF c] view by simp
  moreover have "maximized_flag this0 = JUndefined"
    using constructor_Inr(1) [OF c] by (simp add: maximized_flag_def)
  ultimately show ?thesis
    using run_synchronised [OF ops, of "(this0, e0)"] r by simp
qed

theorem flag_matches_marker_witness:
  "\<not> isl (session no_options sample_env [Resize, AppendTo None, Minimize, Resize, Resize]) \<and>
   ''maximized'' \<notin> set (classList (titlebarView sample_env)) \<and>
   Maximize \<notin> set [Resize, AppendTo None, Minimize, Resize, Resize] \<and>
   Restore \<notin> set [Resize, AppendTo None, Minimize, Resize, Resize] \<and>
   maximized_flag (fst (snd (projr (session no_options sample_env
      [Resize, AppendTo None, Minimize, Resize, Resize])))) = JBool True \<and>
   has_marker (fst (snd (projr (session no_options sample_env
      [Resize, AppendTo None, Minimize, Resize, Resize]))))"
proof -
  let ?ops = "[Resize, AppendTo None, Minimize, Resize, Resize]"
  have ok: "\<not> isl (session no_options sample_env ?ops)" by code_simp
  then have s: "session no_options sample_env ?ops =
     Inr (fst (projr (session no_options sample_env ?ops)),
          fst (snd (projr (session no_options sample_env ?ops))),
          snd (snd (projr (session no_options sample_env ?ops))))"
    by (cases "session no_options sample_env ?ops") simp_all
  have view: "''maximized'' \<notin> set (classList (titlebarView sample_env))"
    by (simp add: sample_env_def sample_view_def)
  have ops: "Maximize \<notin> set ?ops" "Restore \<notin> set ?ops" by simp_all
  have marker: "has_marker (fst (snd (projr (session no_options sample_env ?ops))))"
    by code_simp
  from flag_matches_marker [OF s view ops] marker ok view show ?thesis by simp
qed

subsection \<open>Unmounting\<close>

lemma destroy_without_node:
  "parent e = NotANode \<Longrightarrow> destroy (this, e) = (Some TypeError, this, e)"
  "parent e = Undeclared \<Longrightarrow> destroy (this, e) = (Some ReferenceError, this, e)"
  by (simp_all add: destroy_def)

text \<open>
  Claim C4 has \<^verbatim>\<open>destroy()\<close> remove the root node from the container it was mounted into.
  In a top-level window the global \<^verbatim>\<open>parent\<close> is not a node: after \<^verbatim>\<open>appendTo\<close> into a host
  element, which succeeds, \<^verbatim>\<open>destroy()\<close> throws a TypeError and the root node is still among
  the children of that element.
\<close>
theorem destroy_leaves_root_mounted:
  "\<not> isl (session no_options sample_env [AppendTo (Some (Host 1)), Destroy]) \<and>
   fst (projr (session no_options sample_env [AppendTo (Some (Host 1)), Destroy])) =
     [None, Some TypeError] \<and>
   element_id (fst (snd (projr (session no_options sample_env [AppendTo (Some (Host 1)), Destroy]))))
     \<in> set (children (snd (snd (projr (session no_options sample_env
          [AppendTo (Some (Host 1)), Destroy])))) (Host 1))"
  by code_simp

subsection \<open>The stored fullscreen option\<close>

lemma commutesD: "commutes G a \<Longrightarrow> a (G s) = apsnd G (a s)"
  by (simp add: commutes_def)

lemma commutes_sequence_Nil: "commutes G (sequence [])"
  by (simp add: commutes_def)

lemma commutes_sequence_Cons:
  "commutes G a \<Longrightarrow> commutes G (sequence as) \<Longrightarrow> commutes G (sequence (a # as))"
  by (auto simp: commutes_def split: prod.splits option.splits)

lemma commutes_if_then: "commutes G a \<Longrightarrow> (\<And>s. c (G s) = c s) \<Longrightarrow> commutes G (if_then c a)"
  by (simp add: commutes_def if_then_def)

lemma with_fullscreen_simps [simp]:
  "titlebarElement (with_fullscreen v this) = titlebarElement this"
  "emitted (with_fullscreen v this) = emitted this"
  "element_id (with_fullscreen v this) = element_id this"
  "listeners (with_fullscreen v this) = listeners this"
  "minimizeButton (with_fullscreen v this) = minimizeButton this"
  "resizeButton (with_fullscreen v this) = resizeButton this"
  "closeButton (with_fullscreen v this) = closeButton this"
  "icon (options (with_fullscreen v this)) = icon (options this)"
  "title (options (with_fullscreen v this)) = title (options this)"
  "color (options (with_fullscreen v this)) = color (options this)"
  "backgroundColor (options (with_fullscreen v this)) = backgroundColor (options this)"
  "darkMode (options (with_fullscreen v this)) = darkMode (options this)"
  "draggable (options (with_fullscreen v this)) = draggable (options this)"
  "maximized (options (with_fullscreen v this)) = maximized (options this)"
  by (simp_all add: with_fullscreen_def)

lemma with_fullscreen_twice [simp]:
  "with_fullscreen v (with_fullscreen w this) = with_fullscreen v this"
  by (simp add: with_fullscreen_def)

lemma assign_selected_fullscreen: "commutes (with_fullscreen v) (assign_selected sel f)"
  by (simp add: commutes_def assign_selected_def with_fullscreen_def split: option.splits)

lemma addEventListener_fullscreen:
  "addEventListener tg nm ty m (with_fullscreen v this) =
   apsnd (with_fullscreen v) (addEventListener tg nm ty m this)"
  by (simp add: addEventListener_def with_fullscreen_def split: option.splits)

lemma event_methods_fullscreen:
  "minimize (with_fullscreen v this) = with_fullscreen v (minimize this)"
  "close (with_fullscreen v this) = with_fullscreen v (close this)"
  "maximize (with_fullscreen v this) = with_fullscreen v (maximize this)"
  "restore (with_fullscreen v this) = with_fullscreen v (restore this)"
  "resize (with_fullscreen v this) = with_fullscreen v (resize this)"
  by (simp_all add: minimize_def close_def maximize_def restore_def resize_def emit_def
      with_fullscreen_def Let_def)

lemma init_fullscreen: "commutes (with_fullscreen v) init"
  unfolding init_def
  by (intro commutes_sequence_Cons commutes_sequence_Nil commutes_if_then)
     (simp_all add: commutes_def does_def setIcon_def setTitle_def addEventListener_fullscreen
        commutesD [OF assign_selected_fullscreen], simp_all add: with_fullscreen_def)

lemma appendTo_fullscreen: "commutes (apfst (with_fullscreen v)) (appendTo arg)"
  unfolding appendTo_def Let_def option_darkMode_def option_color_def
    option_backgroundColor_def inject_stylesheet_def append_element_def
  by (intro commutes_sequence_Cons commutes_sequence_Nil commutes_if_then)
     (simp_all add: commutes_def on_env_def on_this_def does_def split_def
        commutesD [OF assign_selected_fullscreen], simp_all add: with_fullscreen_def)

lemma call_fullscreen: "commutes (apfst (with_fullscreen v)) (call x)"
proof (cases x)
  case (AppendTo arg)
  then show ?thesis by (simp add: appendTo_fullscreen)
next
  case Destroy
  then show ?thesis
    by (simp add: commutes_def destroy_def split_def split: global_binding.splits)
next
  case (SetIcon w)
  then show ?thesis
    by (simp add: commutes_def on_this_def setIcon_def split_def
        commutesD [OF assign_selected_fullscreen])
next
  case (SetTitle w)
  then show ?thesis
    by (simp add: commutes_def on_this_def setTitle_def split_def
        commutesD [OF assign_selected_fullscreen])
qed (simp_all add: commutes_def on_this_def does_def split_def event_methods_fullscreen)

lemma run_fullscreen:
  "run ops (apfst (with_fullscreen v) s) = apsnd (apfst (with_fullscreen v)) (run ops s)"
proof (induction ops arbitrary: s)
  case Nil
  then show ?case by simp
next
  case (Cons x xs)
  show ?case
    by (simp add: commutesD [OF call_fullscreen] Cons.IH split_def)
qed

lemma constructor_fullscreen:
  "constructor (opts\<lparr>fullscreen := v\<rparr>) e =
   map_sum id (apfst (with_fullscreen v)) (constructor opts e)"
proof -
  let ?new = "\<lambda>w. \<lparr>options = \<lparr>icon = icon opts, title = title opts, color = color opts,
                    backgroundColor = backgroundColor opts, darkMode = darkMode opts,
                    draggable = draggable opts, fullscreen = w,
                    maximized = JUndefined\<rparr>,
                  titlebarElement = titlebarView e,
                  element_id = next_id e,
                  minimizeButton = querySelector ''.titlebar-minimize'' (titlebarView e),
                  resizeButton = querySelector ''.titlebar-resize'' (titlebarView e),
                  closeButton = querySelector ''.titlebar-close'' (titlebarView e),
                  listeners = [],
                  emitted = []\<rparr>"
  have "?new v = with_fullscreen v (?new (fullscreen opts))"
    by (simp add: with_fullscreen_def)
  then have "init (?new v) = apsnd (with_fullscreen v) (init (?new (fullscreen opts)))"
    by (simp only: commutesD [OF init_fullscreen])
  then show ?thesis
    by (simp add: constructor_def Let_def split: prod.splits option.splits)
qed

text \<open>
  Claim C5. The \<^verbatim>\<open>fullscreen\<close> field is stored and never read: two configurations that
  differ in that field only lead, under every sequence of calls, to the same outcome of
  the constructor, the same exceptions of the calls, the same emitted events, flag, view
  and other fields of the widget, and the same environment.
\<close>
theorem fullscreen_never_consulted:
  "observable (session (opts\<lparr>fullscreen := v\<rparr>) e ops) = observable (session opts e ops)"
proof (cases "constructor opts e")
  case (Inl err)
  then show ?thesis by (simp add: session_def constructor_fullscreen observable_def)
next
  case (Inr s)
  obtain rs this e' where r: "run ops s = (rs, this, e')" by (cases "run ops s") auto
  have "run ops (apfst (with_fullscreen v) s) = (rs, with_fullscreen v this, e')"
    by (simp add: run_fullscreen r)
  with Inr r show ?thesis
    by (simp add: session_def constructor_fullscreen observable_def)
qed

subsection \<open>Mounting\<close>

lemma sequence_after_head:
  "fst (a s) = None \<Longrightarrow> keeps g (sequence as) \<Longrightarrow> g (snd (sequence (a # as) s)) = g (snd (a s))"
  by (cases "a s") (simp add: keeps_def)

lemma option_darkMode_ok: "fst (option_darkMode s) = None"
  by (simp add: option_darkMode_def if_then_def on_env_def split_def)

lemma option_darkMode_body:
  "body_classList (snd (snd (option_darkMode (this, e)))) =
   (if darkMode (options this) \<noteq> JBool False
    then classList_add ''titlebar-light'' (body_classList e) else body_classList e)"
  by (simp add: option_darkMode_def if_then_def on_env_def)

lemma option_darkMode_sheets:
  "keeps (\<lambda>s. (stylesheets (snd s), titlebarStylesheet (snd s))) option_darkMode"
  by (simp add: keeps_def option_darkMode_def if_then_def on_env_def split_def)

lemma option_color_env: "keeps snd option_color"
  unfolding option_color_def
  by (intro keeps_sequence_Cons keeps_sequence_Nil keeps_if_then)
     (simp_all add: keeps_def on_this_def split_def)

lemma option_backgroundColor_env: "keeps snd option_backgroundColor"
  by (simp add: keeps_def option_backgroundColor_def if_then_def on_this_def does_def split_def)

lemma inject_stylesheet_runs:
  "inject_stylesheet (this, e) = (None, this, defaultCss ''titlebar'' (titlebarStylesheet e) e)"
  by (simp add: inject_stylesheet_def on_env_def)

lemma append_element_runs:
  "append_element context (this, e) = (None, this, appendChild context (element_id this) e)"
  by (simp add: append_element_def on_env_def)

lemma defaultCss_fields [simp]:
  "body_classList (defaultCss name css e) = body_classList e"
  "titlebarStylesheet (defaultCss name css e) = titlebarStylesheet e"
  "stylesheets (defaultCss name css e) =
     (if name \<in> fst ` set (stylesheets e) then stylesheets e else stylesheets e @ [(name, css)])"
  by (simp_all add: defaultCss_def)

lemma appendChild_fields [simp]:
  "body_classList (appendChild context r e) = body_classList e"
  "stylesheets (appendChild context r e) = stylesheets e"
  "titlebarStylesheet (appendChild context r e) = titlebarStylesheet e"
  by (simp_all add: appendChild_def)

lemma appendTo_body_classList:
  "body_classList (snd (snd (appendTo arg (this, e)))) =
   (if darkMode (options this) \<noteq> JBool False
    then classList_add ''titlebar-light'' (body_classList e) else body_classList e)"
proof -
  let ?target = "case arg of None \<Rightarrow> Body | Some c \<Rightarrow> c"
  have rest: "keeps (\<lambda>s. body_classList (snd s))
     (sequence [option_color, option_backgroundColor, inject_stylesheet, append_element ?target])"
    by (intro keeps_sequence_Cons keeps_sequence_Nil)
       (simp_all add: keeps_def keepsD [OF option_color_env] keepsD [OF option_backgroundColor_env]
          inject_stylesheet_runs append_element_runs split_def)
  show ?thesis
    unfolding appendTo_def Let_def
    using sequence_after_head [where a = option_darkMode and s = "(this, e)",
        OF option_darkMode_ok rest]
    by (simp add: option_darkMode_body del: sequence.simps(2))
qed

lemma appendTo_ok_stylesheets:
  assumes "appendTo arg (this, e) = (None, this', e')"
  shows "stylesheets e' = stylesheets (defaultCss ''titlebar'' (titlebarStylesheet e) e)"
    and "titlebarStylesheet e' = titlebarStylesheet e"
proof -
  let ?target = "case arg of None \<Rightarrow> Body | Some c \<Rightarrow> c"
  from assms obtain s1 s2 s3 s4 where
    s1: "option_darkMode (this, e) = (None, s1)" and
    s2: "option_color s1 = (None, s2)" and
    s3: "option_backgroundColor s2 = (None, s3)" and
    s4: "inject_stylesheet s3 = (None, s4)" and
    s5: "append_element ?target s4 = (None, this', e')"
    unfolding appendTo_def Let_def
    by (auto dest!: sequence_Cons_ok simp del: sequence.simps(2))
  have "stylesheets (snd s1) = stylesheets e \<and> titlebarStylesheet (snd s1) = titlebarStylesheet e"
    using keepsD [OF option_darkMode_sheets, of "(this, e)"] s1 by simp
  moreover have "snd s2 = snd s1" using keepsD [OF option_color_env, of s1] s2 by simp
  moreover have "snd s3 = snd s2" using keepsD [OF option_backgroundColor_env, of s2] s3 by simp
  moreover have "snd s4 = defaultCss ''titlebar'' (titlebarStylesheet (snd s3)) (snd s3)"
    using s4 inject_stylesheet_runs [of "fst s3" "snd s3"] by simp
  moreover have "e' = appendChild ?target (element_id (fst s4)) (snd s4)"
    using s5 append_element_runs [of ?target "fst s4" "snd s4"] by simp
  ultimately show "stylesheets e' = stylesheets (defaultCss ''titlebar'' (titlebarStylesheet e) e)"
    and "titlebarStylesheet e' = titlebarStylesheet e"
    by simp_all
qed

lemma count_stylesheets_defaultCss:
  "count_stylesheets name (defaultCss name css e) =
   (if count_stylesheets name e = 0 then 1 else count_stylesheets name e)"
proof -
  have "(name \<in> fst ` set (stylesheets e)) = (filter (\<lambda>sheet. fst sheet = name) (stylesheets e) \<noteq> [])"
    by (auto simp: filter_empty_conv)
  then show ?thesis by (simp add: count_stylesheets_def defaultCss_def)
qed

lemma constructor_init:
  assumes "constructor opts e = Inr (this, e')"
  shows "\<exists>new. init new = (None, this) \<and> options new = opts\<lparr>maximized := JUndefined\<rparr> \<and>
           titlebarElement new = titlebarView e"
  using assms by (auto simp: constructor_def Let_def split: prod.splits option.splits)

lemma constructor_stylesheets:
  "constructor opts e = Inr (this, e') \<Longrightarrow>
   stylesheets e' = stylesheets e \<and> body_classList e' = body_classList e \<and>
   titlebarStylesheet e' = titlebarStylesheet e \<and> titlebarView e' = titlebarView e"
  using constructor_Inr(4) [of opts e this e'] by simp

lemma session_one_call:
  assumes "session opts e [x] = Inr (rs, this', e')"
  shows "\<exists>this e1 r. constructor opts e = Inr (this, e1) \<and> call x (this, e1) = (r, this', e') \<and>
           rs = [r]"
  using assms by (auto simp: session_def split: sum.splits prod.splits)

text \<open>
  Claim C6. On a page whose body does not carry the light-theme class, the body carries
  it after \<^verbatim>\<open>appendTo\<close> on a new widget if and only if \<^verbatim>\<open>darkMode\<close> is not the value
  \<^verbatim>\<open>false\<close>: not for \<^verbatim>\<open>{darkMode: false}\<close>, and for an absent field and for
  \<^verbatim>\<open>{darkMode: true}\<close> it does.
\<close>
theorem light_theme_unless_darkMode_false:
  "session opts e [AppendTo arg] = Inr (rs, this', e') \<Longrightarrow>
   ''titlebar-light'' \<notin> set (body_classList e) \<Longrightarrow>
   (''titlebar-light'' \<in> set (body_classList e')) = (darkMode opts \<noteq> JBool False)"
proof -
  assume s: "session opts e [AppendTo arg] = Inr (rs, this', e')"
    and fresh: "''titlebar-light'' \<notin> set (body_classList e)"
  from session_one_call [OF s] obtain this e1 r where
    c: "constructor opts e = Inr (this, e1)" and a: "appendTo arg (this, e1) = (r, this', e')"
    by auto
  have "darkMode (options this) = darkMode opts" using constructor_Inr(1) [OF c] by simp
  moreover have "body_classList e1 = body_classList e" using constructor_stylesheets [OF c] by simp
  ultimately show ?thesis
    using appendTo_body_classList [of arg this e1] a fresh by (simp add: classList_add_def)
qed

theorem light_theme_unless_darkMode_false_witness:
  "''titlebar-light'' \<notin> set (body_classList sample_env) \<and>
   \<not> isl (session (no_options\<lparr>darkMode := JBool False\<rparr>) sample_env [AppendTo None]) \<and>
   ''titlebar-light'' \<notin> set (body_classList (snd (snd (projr
      (session (no_options\<lparr>darkMode := JBool False\<rparr>) sample_env [AppendTo None]))))) \<and>
   \<not> isl (session no_options sample_env [AppendTo None]) \<and>
   ''titlebar-light'' \<in> set (body_classList (snd (snd (projr
      (session no_options sample_env [AppendTo None]))))) \<and>
   \<not> isl (session (no_options\<lparr>darkMode := JBool True\<rparr>) sample_env [AppendTo None]) \<and>
   ''titlebar-light'' \<in> set (body_classList (snd (snd (projr
      (session (no_options\<lparr>darkMode := JBool True\<rparr>) sample_env [AppendTo None])))))"
proof -
  let ?off = "session (no_options\<lparr>darkMode := JBool False\<rparr>) sample_env [AppendTo None]"
  let ?absent = "session no_options sample_env [AppendTo None]"
  let ?on = "session (no_options\<lparr>darkMode := JBool True\<rparr>) sample_env [AppendTo None]"
  have fresh: "''titlebar-light'' \<notin> set (body_classList sample_env)"
    by (simp add: sample_env_def)
  have off: "\<not> isl ?off" by code_simp
  then have 1: "?off = Inr (fst (projr ?off), fst (snd (projr ?off)), snd (snd (projr ?off)))"
    by (cases ?off) simp_all
  have absent: "\<not> isl ?absent" by code_simp
  then have 2: "?absent = Inr (fst (projr ?absent), fst (snd (projr ?absent)), snd (snd (projr ?absent)))"
    by (cases ?absent) simp_all
  have on: "\<not> isl ?on" by code_simp
  then have 3: "?on = Inr (fst (projr ?on), fst (snd (projr ?on)), snd (snd (projr ?on)))"
    by (cases ?on) simp_all
  from light_theme_unless_darkMode_false [OF 1 fresh] light_theme_unless_darkMode_false [OF 2 fresh]
    light_theme_unless_darkMode_false [OF 3 fresh] fresh off absent on
  show ?thesis by (simp add: no_options_def)
qed

text \<open>
  Claim C8. When one widget is constructed and mounted and then a second one, both
  without exception, on a page that held the style sheet named \<^verbatim>\<open>titlebar\<close> at most once,
  the page holds that style sheet exactly once.
\<close>
theorem stylesheet_injected_once:
  "session opts1 e [AppendTo arg1] = Inr ([None], this1, e1) \<Longrightarrow>
   session opts2 e1 [AppendTo arg2] = Inr ([None], this2, e2) \<Longrightarrow>
   count_stylesheets ''titlebar'' e \<le> 1 \<Longrightarrow>
   count_stylesheets ''titlebar'' e2 = 1"
proof -
  assume s1: "session opts1 e [AppendTo arg1] = Inr ([None], this1, e1)"
    and s2: "session opts2 e1 [AppendTo arg2] = Inr ([None], this2, e2)"
    and start: "count_stylesheets ''titlebar'' e \<le> 1"
  from session_one_call [OF s1] obtain new1 c1 where
    c1: "constructor opts1 e = Inr (new1, c1)" and a1: "appendTo arg1 (new1, c1) = (None, this1, e1)"
    by auto
  from session_one_call [OF s2] obtain new2 c2 where
    c2: "constructor opts2 e1 = Inr (new2, c2)" and a2: "appendTo arg2 (new2, c2) = (None, this2, e2)"
    by auto
  have "count_stylesheets ''titlebar'' c1 \<le> 1"
    using constructor_stylesheets [OF c1] start by (simp add: count_stylesheets_def)
  moreover have "count_stylesheets ''titlebar'' e1 =
      count_stylesheets ''titlebar'' (defaultCss ''titlebar'' (titlebarStylesheet c1) c1)"
    using appendTo_ok_stylesheets(1) [OF a1] by (simp add: count_stylesheets_def)
  moreover have "count_stylesheets ''titlebar'' c2 = count_stylesheets ''titlebar'' e1"
    using constructor_stylesheets [OF c2] by (simp add: count_stylesheets_def)
  moreover have "count_stylesheets ''titlebar'' e2 =
      count_stylesheets ''titlebar'' (defaultCss ''titlebar'' (titlebarStylesheet c2) c2)"
    using appendTo_ok_stylesheets(1) [OF a2] by (simp add: count_stylesheets_def)
  ultimately show ?thesis by (simp add: count_stylesheets_defaultCss)
qed

theorem stylesheet_injected_once_witness:
  "count_stylesheets ''titlebar'' sample_env \<le> 1 \<and>
   fst (projr (session no_options sample_env [AppendTo None])) = [None] \<and>
   fst (projr (session (no_options\<lparr>title := JString ''Second''\<rparr>)
      (snd (snd (projr (session no_options sample_env [AppendTo None]))))
      [AppendTo (Some (Host 1))])) = [None] \<and>
   count_stylesheets ''titlebar''
     (snd (snd (projr (session (no_options\<lparr>title := JString ''Second''\<rparr>)
        (snd (snd (projr (session no_options sample_env [AppendTo None]))))
        [AppendTo (Some (Host 1))])))) = 1"
proof -
  let ?first = "session no_options sample_env [AppendTo None]"
  let ?second = "session (no_options\<lparr>title := JString ''Second''\<rparr>)
      (snd (snd (projr ?first))) [AppendTo (Some (Host 1))]"
  have start: "count_stylesheets ''titlebar'' sample_env \<le> 1"
    by (simp add: count_stylesheets_def sample_env_def)
  have "\<not> isl ?first" by code_simp
  moreover have r1: "fst (projr ?first) = [None]" by code_simp
  ultimately have 1: "?first = Inr ([None], fst (snd (projr ?first)), snd (snd (projr ?first)))"
    by (cases ?first) auto
  have "\<not> isl ?second" by code_simp
  moreover have r2: "fst (projr ?second) = [None]" by code_simp
  ultimately have 2: "?second = Inr ([None], fst (snd (projr ?second)), snd (snd (projr ?second)))"
    by (cases ?second) auto
  from stylesheet_injected_once [OF 1 2 start] start r1 r2 show ?thesis by simp
qed

subsection \<open>Title and icon\<close>

lemma assign_selected_result:
  "assign_selected sel f this = (None, this') \<Longrightarrow>
   querySelector_assign sel f (titlebarElement this) = Some (titlebarElement this') \<and>
   options this' = options this"
  by (auto simp: assign_selected_def split: option.splits)

lemma assign_selected_ok:
  "querySelector sel (titlebarElement this) \<noteq> None \<Longrightarrow> fst (assign_selected sel f this) = None"
  using querySelector_assign_None [of sel f "titlebarElement this"]
  by (auto simp: assign_selected_def split: option.splits)

lemma setTitle_text:
  assumes "setTitle v this = (None, this')"
  shows "title_text (titlebarElement this') = Some (innerText_string v)"
proof -
  let ?f = "set_innerText (innerText_string v)"
  from assms have a: "querySelector_assign ''.titlebar-title'' ?f (titlebarElement this) =
      Some (titlebarElement this')"
    using assign_selected_result [of "''.titlebar-title''" ?f this this'] by (simp add: setTitle_def)
  then have "querySelector ''.titlebar-title'' (titlebarElement this) \<noteq> None"
    using querySelector_assign_None [of "''.titlebar-title''" ?f "titlebarElement this"] by simp
  then obtain n where n: "querySelector ''.titlebar-title'' (titlebarElement this) = Some n"
    by blast
  have "querySelector ''.titlebar-title'' (titlebarElement this') = Some (?f n)"
    using querySelector_after_assign [OF _ a] n by simp
  then show ?thesis by (simp add: title_text_def)
qed


lemma listeners_keep_element:
  "keeps titlebarElement (sequence
     [does (\<lambda>this. this\<lparr>listeners :=
        listeners this @ [(''titlebarElement'', ''dblclick'', ''resize'')]\<rparr>),
      (\<lambda>this. addEventListener (minimizeButton this) ''minimizeButton'' ''click'' ''minimize'' this),
      (\<lambda>this. addEventListener (resizeButton this) ''resizeButton'' ''click'' ''resize'' this),
      (\<lambda>this. addEventListener (closeButton this) ''closeButton'' ''click'' ''close'' this)])"
  by (intro keeps_sequence_Cons keeps_sequence_Nil) (simp_all add: keeps_def does_def)

lemma init_steps:
  assumes "init this = (None, this')"
  shows "\<exists>t1 t2 t3.
     childNodes (titlebarElement t1) = childNodes (titlebarElement this) \<and>
     options t1 = options this \<and>
     (if truthy (icon (options this)) then setIcon (icon (options this)) t1 = (None, t2)
      else t2 = t1) \<and>
     (if truthy (title (options this)) then setTitle (title (options this)) t2 = (None, t3)
      else t3 = t2) \<and>
     titlebarElement this' = titlebarElement t3"
proof -
  let ?rest = "sequence
     [does (\<lambda>this. this\<lparr>listeners :=
        listeners this @ [(''titlebarElement'', ''dblclick'', ''resize'')]\<rparr>),
      (\<lambda>this. addEventListener (minimizeButton this) ''minimizeButton'' ''click'' ''minimize'' this),
      (\<lambda>this. addEventListener (resizeButton this) ''resizeButton'' ''click'' ''resize'' this),
      (\<lambda>this. addEventListener (closeButton this) ''closeButton'' ''click'' ''close'' this)]"
  from assms obtain t1 t2 t3 where
    d: "if_then (\<lambda>this. truthy (draggable (options this)))
          (does (\<lambda>this. this\<lparr>titlebarElement :=
             set_classList (classList_add ''draggable'' (classList (titlebarElement this)))
               (titlebarElement this)\<rparr>)) this = (None, t1)" and
    i: "if_then (\<lambda>this. truthy (icon (options this)))
          (\<lambda>this. setIcon (icon (options this)) this) t1 = (None, t2)" and
    t: "if_then (\<lambda>this. truthy (title (options this)))
          (\<lambda>this. setTitle (title (options this)) this) t2 = (None, t3)" and
    r: "?rest t3 = (None, this')"
    unfolding init_def
    by (auto dest!: sequence_Cons_ok [where as = "_ # _ # _ # _ # _"]
             dest: sequence_Cons_ok simp del: sequence.simps(2))
  from d have 1: "childNodes (titlebarElement t1) = childNodes (titlebarElement this)"
    and 2: "options t1 = options this"
    by (auto simp: if_then_def does_def split: if_splits)
  have 3: "options t2 = options t1"
    using i assign_selected_result [of "''.titlebar-icon''" _ t1 t2]
    by (auto simp: if_then_def setIcon_def split: if_splits)
  have 4: "titlebarElement this' = titlebarElement t3"
    using keepsD [OF listeners_keep_element, of t3] r by simp
  from i 2 have 5: "if truthy (icon (options this))
      then setIcon (icon (options this)) t1 = (None, t2) else t2 = t1"
    by (auto simp: if_then_def)
  from t 2 3 have 6: "if truthy (title (options this))
      then setTitle (title (options this)) t2 = (None, t3) else t3 = t2"
    by (auto simp: if_then_def)
  from 1 2 5 6 4 show ?thesis by blast
qed

lemma constructor_title:
  assumes "constructor opts e = Inr (this, e')" and "truthy (title opts)"
  shows "title_text (titlebarElement this) = Some (innerText_string (title opts))"
proof -
  from constructor_init [OF assms(1)] obtain new where
    new: "init new = (None, this)" "options new = opts\<lparr>maximized := JUndefined\<rparr>"
    by blast
  from init_steps [OF new(1)] new(2) assms(2) obtain t2 t3 where
    "setTitle (title opts) t2 = (None, t3)" "titlebarElement this = titlebarElement t3"
    by auto
  then show ?thesis using setTitle_text [of "title opts" t2 t3] by simp
qed


text \<open>
  Claim C9. After construction with a non-empty string as \<^verbatim>\<open>title\<close> (such as
  \<^verbatim>\<open>{title: "My App"}\<close>) the text of the title region is that string; a following
  \<^verbatim>\<open>setTitle(x)\<close> throws nothing and makes the text \<open>x\<close>.
\<close>
theorem title_text_follows:
  "constructor opts e = Inr (this, e') \<Longrightarrow> title opts = JString s \<Longrightarrow> s \<noteq> [] \<Longrightarrow>
   title_text (titlebarElement this) = Some s \<and>
   fst (setTitle (JString x) this) = None \<and>
   title_text (titlebarElement (snd (setTitle (JString x) this))) = Some x"
proof -
  assume c: "constructor opts e = Inr (this, e')" and t: "title opts = JString s" and s: "s \<noteq> []"
  have built: "title_text (titlebarElement this) = Some s"
    using constructor_title [OF c] t s by simp
  then have "querySelector ''.titlebar-title'' (titlebarElement this) \<noteq> None"
    by (auto simp: title_text_def)
  then have ok: "fst (setTitle (JString x) this) = None"
    by (simp add: setTitle_def assign_selected_ok)
  then have "setTitle (JString x) this = (None, snd (setTitle (JString x) this))"
    by (cases "setTitle (JString x) this") simp
  from setTitle_text [OF this] built ok show ?thesis by simp
qed

theorem title_text_follows_witness:
  "\<not> isl (constructor (no_options\<lparr>title := JString ''My App''\<rparr>) sample_env) \<and>
   title_text (titlebarElement (fst (projr
      (constructor (no_options\<lparr>title := JString ''My App''\<rparr>) sample_env)))) = Some ''My App'' \<and>
   fst (setTitle (JString ''X'') (fst (projr
      (constructor (no_options\<lparr>title := JString ''My App''\<rparr>) sample_env)))) = None \<and>
   title_text (titlebarElement (snd (setTitle (JString ''X'') (fst (projr
      (constructor (no_options\<lparr>title := JString ''My App''\<rparr>) sample_env)))))) = Some ''X''"
proof -
  let ?c = "constructor (no_options\<lparr>title := JString ''My App''\<rparr>) sample_env"
  have ok: "\<not> isl ?c" by code_simp
  then have c: "?c = Inr (fst (projr ?c), snd (projr ?c))" by (cases ?c) simp_all
  have t: "title (no_options\<lparr>title := JString ''My App''\<rparr>) = JString ''My App''" by simp
  have s: "''My App'' \<noteq> []" by simp
  from title_text_follows [OF c t s, of "''X''"] ok show ?thesis by simp
qed

subsection \<open>A falsy title or icon\<close>











end
